theory Spec2Isabelle
  imports Complex_Main "HOL-Library.Sublist"
begin

section \<open>Enumerations and their wire tokens\<close>

datatype EventType = FRAGMENT | SIGNAL

fun EventType_value :: "EventType \<Rightarrow> string" where
  "EventType_value FRAGMENT = ''datastar-fragment''"
| "EventType_value SIGNAL = ''datastar-signal''"

text \<open>The member \<open>APPEND\<close> is written \<open>APPEND_MEMBER\<close>: the plain name is an infix
  operator of the prover's implementation language, and code generated for evaluation would
  not compile with it.\<close>

datatype MergeType =
  MORPH | INNER | OUTER | PREPEND | APPEND_MEMBER | BEFORE | AFTER | DELETE | UPSERT_ATTRIBUTES

fun MergeType_value :: "MergeType \<Rightarrow> string" where
  "MergeType_value MORPH = ''morph_element''"
| "MergeType_value INNER = ''inner_element''"
| "MergeType_value OUTER = ''outer_element''"
| "MergeType_value PREPEND = ''prepend_element''"
| "MergeType_value APPEND_MEMBER = ''append_element''"
| "MergeType_value BEFORE = ''before_element''"
| "MergeType_value AFTER = ''after_element''"
| "MergeType_value DELETE = ''delete_element''"
| "MergeType_value UPSERT_ATTRIBUTES = ''upsert_attributes''"

text \<open>The exceptions the module can raise or meet. \<open>Failure\<close> stands for any other
  subclass of \<open>Exception\<close> raised by an injected callable, named by its message.\<close>

datatype exn = AssertionError | KeyError | TypeError | StopAsyncIteration | Failure string

section \<open>Python text helpers\<close>

text \<open>\<open>str(n)\<close> for an unbounded integer: decimal digits, a leading minus sign.\<close>

fun str_nat :: "nat \<Rightarrow> string" where
  "str_nat n =
     (if n < 10 then [''0123456789'' ! n]
      else str_nat (n div 10) @ [''0123456789'' ! (n mod 10)])"

declare str_nat.simps [simp del]

definition str_int :: "int \<Rightarrow> string" where
  "str_int i = (if i < 0 then CHR ''-'' # str_nat (nat (- i)) else str_nat (nat i))"

definition str_bool :: "bool \<Rightarrow> string" where
  "str_bool b = (if b then ''True'' else ''False'')"

text \<open>\<open>str.lower()\<close> on ASCII text (it is only applied to \<open>str(bool)\<close>).\<close>

definition lower_char :: "char \<Rightarrow> char" where
  "lower_char c =
     (case map_of (zip ''ABCDEFGHIJKLMNOPQRSTUVWXYZ'' ''abcdefghijklmnopqrstuvwxyz'') c of
        Some l \<Rightarrow> l
      | None \<Rightarrow> c)"

definition lower :: "string \<Rightarrow> string" where
  "lower s = map lower_char s"

text \<open>\<open>sep.join(xs)\<close>.\<close>

fun join :: "string \<Rightarrow> string list \<Rightarrow> string" where
  "join sep [] = []"
| "join sep [x] = x"
| "join sep (x # y # ys) = x @ sep @ join sep (y # ys)"

section \<open>Data model\<close>

text \<open>The six optional fields that \<open>FragmentConfig\<close> and \<open>DatastarEvent\<close> both declare,
  each \<open>Optional[...]\<close>. In a \<open>FragmentConfig\<close> (a \<open>TypedDict\<close> with \<open>total=False\<close>)
  \<open>None\<close> stands for a key that is absent or holds \<open>None\<close>: \<open>fragment.get(k) or d\<close>
  cannot tell the two apart.\<close>

record options =
  merge :: "MergeType option"
  selector :: "string option"
  settle_duration :: "int option"
  use_view_transitions :: "bool option"
  redirect :: "string option"
  error :: "string option"

text \<open>\<open>fragment = None\<close>: the key \<open>'fragment'\<close> is absent.\<close>

record FragmentConfig = options +
  fragment :: "string option"

text \<open>The values \<open>json.dumps\<close> meets inside a \<open>dict\<close>. A float is given by the text
  that \<open>json.dumps\<close> writes for it: the result of \<open>float.__repr__\<close>, or \<open>NaN\<close>,
  \<open>Infinity\<close>, \<open>-Infinity\<close>; float arithmetic is outside the model. \<open>JObject\<close> and
  \<open>KObject\<close> are a value and a key of a type the encoder cannot serialise.\<close>

datatype jkey = KStr string | KInt int | KFloat string | KBool bool | KNone | KObject

datatype json =
  JNull | JBool bool | JInt int | JFloat string | JStr string
  | JList "json list" | JDict "(jkey \<times> json) list" | JObject

text \<open>One value handed to \<open>format_sse\<close>, by the run-time type the code inspects:
  \<^item> \<open>Str s\<close>: a \<open>str\<close>;
  \<^item> \<open>Dict cfg entries\<close>: a \<open>dict\<close>, given by what the two encoders read of it:
    its \<open>FragmentConfig\<close> keys (the fragment path) and its entries in insertion order
    (the signal path, \<open>json.dumps\<close>);
  \<^item> \<open>Obj s\<close>: an object of any other type whose \<open>str()\<close> is \<open>s\<close>.\<close>

datatype item = Str string | Dict FragmentConfig "(jkey \<times> json) list" | Obj string

text \<open>The \<open>content\<close> of an event: one item, or a \<open>list\<close> of items.\<close>

datatype content = Item item | Items "item list"

record DatastarEvent = options +
  content :: content
  event_type :: EventType

text \<open>\<open>__post_init__\<close>: the assertion \<open>isinstance(self.content, (list, str, dict))\<close>.\<close>

definition post_init :: "DatastarEvent \<Rightarrow> exn + DatastarEvent" where
  "post_init self =
     (case content self of
        Item (Obj s) \<Rightarrow> Inl AssertionError
      | _ \<Rightarrow> Inr self)"

text \<open>The constructor call \<open>DatastarEvent(content=..., merge=..., ...)\<close>: the generated
  \<open>__init__\<close> stores the fields, then \<open>__post_init__\<close> runs.\<close>

definition DatastarEvent_init ::
  "content \<Rightarrow> MergeType option \<Rightarrow> string option \<Rightarrow> int option \<Rightarrow> bool option \<Rightarrow>
   string option \<Rightarrow> string option \<Rightarrow> EventType \<Rightarrow> exn + DatastarEvent" where
  "DatastarEvent_init c m sel sd vt r e k =
     post_init \<lparr>merge = m, selector = sel, settle_duration = sd, use_view_transitions = vt,
                redirect = r, error = e, content = c, event_type = k\<rparr>"

section \<open>The fragment encoder\<close>

text \<open>\<open>a or b\<close> on \<open>Optional[MergeType]\<close> (every member is a non-empty string, so
  truthy) and on \<open>Optional[str]\<close> (the empty string is falsy).\<close>

definition or_merge :: "MergeType option \<Rightarrow> MergeType option \<Rightarrow> MergeType option" where
  "or_merge a b = (case a of Some m \<Rightarrow> Some m | None \<Rightarrow> b)"

definition or_str :: "string option \<Rightarrow> string option \<Rightarrow> string option" where
  "or_str a b = (case a of Some s \<Rightarrow> if s \<noteq> [] then Some s else b | None \<Rightarrow> b)"

text \<open>The list \<open>data_lines\<close> of \<open>_format_fragment_sse\<close>, with its \<open>None\<close> entries.\<close>

definition data_lines ::
  "DatastarEvent \<Rightarrow> MergeType option \<Rightarrow> string option \<Rightarrow> string \<Rightarrow> string option list" where
  "data_lines self m sel frag =
     [ (case m of Some v \<Rightarrow> Some (''merge '' @ MergeType_value v) | None \<Rightarrow> None),
       (case sel of Some s \<Rightarrow> if s \<noteq> [] then Some (''selector '' @ s) else None | None \<Rightarrow> None),
       (case settle_duration self of
          Some n \<Rightarrow> if n \<noteq> 0 then Some (''settle '' @ str_int n) else None | None \<Rightarrow> None),
       (case use_view_transitions self of
          Some b \<Rightarrow> Some (''vt '' @ lower (str_bool b)) | None \<Rightarrow> None),
       (case redirect self of
          Some s \<Rightarrow> if s \<noteq> [] then Some (''redirect '' @ s) else None | None \<Rightarrow> None),
       (case error self of
          Some s \<Rightarrow> if s \<noteq> [] then Some (''error '' @ s) else None | None \<Rightarrow> None),
       Some (''fragment '' @ frag) ]"

text \<open>The first statement of \<open>_format_fragment_sse\<close>: the local variables
  \<open>merge, selector, frag\<close>. \<open>fragment['fragment']\<close> raises \<open>KeyError\<close> on a missing key.\<close>

fun resolve :: "DatastarEvent \<Rightarrow> item \<Rightarrow> exn + (MergeType option \<times> string option \<times> string)" where
  "resolve self (Dict cfg entries) =
     (case fragment cfg of
        None \<Rightarrow> Inl KeyError
      | Some frag \<Rightarrow>
          Inr (or_merge (merge cfg) (merge self), or_str (selector cfg) (selector self), frag))"
| "resolve self (Str s) = Inr (merge self, selector self, s)"
| "resolve self (Obj s) = Inr (merge self, selector self, s)"

text \<open>The lines that are not \<open>None\<close>, each behind \<open>data: \<close>, joined by newlines.\<close>

definition kept :: "string option list \<Rightarrow> string list" where
  "kept ls = List.map_filter (\<lambda>l. l) ls"

definition render :: "string list \<Rightarrow> string" where
  "render ls = join ''\<newline>'' (map (\<lambda>line. ''data: '' @ line) ls)"

definition format_fragment_sse :: "DatastarEvent \<Rightarrow> item \<Rightarrow> exn + string" where
  "format_fragment_sse self x =
     (case resolve self x of
        Inl e \<Rightarrow> Inl e
      | Inr (m, sel, frag) \<Rightarrow> Inr (render (kept (data_lines self m sel frag))))"

text \<open>The keyword of a data line: its text before the first space.\<close>

definition keyword :: "string \<Rightarrow> string" where
  "keyword l = takeWhile (\<lambda>c. c \<noteq> CHR '' '') l"

section \<open>The signal encoder\<close>

text \<open>\<open>json.dumps\<close> with its default arguments: \<open>ensure_ascii=True\<close>, the separators
  \<open>', '\<close> and \<open>': '\<close>, no indentation. A character outside the printable ASCII range
  is written \<open>\u00xx\<close> (characters are the code points below 256 here).\<close>

definition hex_digit :: "nat \<Rightarrow> char" where
  "hex_digit d = ''0123456789abcdef'' ! d"

definition json_escape :: "char \<Rightarrow> string" where
  "json_escape c =
     (if c = CHR 0x5C then [CHR 0x5C, CHR 0x5C]
      else if c = CHR 0x22 then [CHR 0x5C, CHR 0x22]
      else if c = CHR 0x08 then [CHR 0x5C, CHR ''b'']
      else if c = CHR 0x0C then [CHR 0x5C, CHR ''f'']
      else if c = CHR 0x0A then [CHR 0x5C, CHR ''n'']
      else if c = CHR 0x0D then [CHR 0x5C, CHR ''r'']
      else if c = CHR 0x09 then [CHR 0x5C, CHR ''t'']
      else if (32::nat) \<le> of_char c \<and> of_char c \<le> (126::nat) then [c]
      else [CHR 0x5C, CHR ''u'', CHR ''0'', CHR ''0'',
            hex_digit (of_char c div 16), hex_digit (of_char c mod 16)])"

definition json_string :: "string \<Rightarrow> string" where
  "json_string s = [CHR 0x22] @ concat (map json_escape s) @ [CHR 0x22]"

text \<open>Results in order; the first exception wins.\<close>

fun sequence :: "(exn + 'a) list \<Rightarrow> exn + 'a list" where
  "sequence [] = Inr []"
| "sequence (Inl e # rs) = Inl e"
| "sequence (Inr x # rs) = (case sequence rs of Inl e \<Rightarrow> Inl e | Inr xs \<Rightarrow> Inr (x # xs))"

text \<open>The text of a key: a \<open>str\<close> as it is, a float, \<open>True\<close>, \<open>False\<close>, \<open>None\<close> and an
  \<open>int\<close> converted; a key of another type raises \<open>TypeError\<close>.\<close>

fun json_key :: "jkey \<Rightarrow> exn + string" where
  "json_key (KStr s) = Inr s"
| "json_key (KFloat s) = Inr s"
| "json_key (KBool b) = Inr (if b then ''true'' else ''false'')"
| "json_key KNone = Inr ''null''"
| "json_key (KInt i) = Inr (str_int i)"
| "json_key KObject = Inl TypeError"

fun json_dumps :: "json \<Rightarrow> exn + string" where
  "json_dumps JNull = Inr ''null''"
| "json_dumps (JBool b) = Inr (if b then ''true'' else ''false'')"
| "json_dumps (JInt i) = Inr (str_int i)"
| "json_dumps (JFloat s) = Inr s"
| "json_dumps (JStr s) = Inr (json_string s)"
| "json_dumps (JList xs) =
     (case sequence (map json_dumps xs) of
        Inl e \<Rightarrow> Inl e
      | Inr ss \<Rightarrow> Inr (''['' @ join '', '' ss @ '']''))"
| "json_dumps (JDict kvs) =
     (case sequence (map (\<lambda>kv. case json_key (fst kv) of
                                   Inl e \<Rightarrow> Inl e
                                 | Inr k \<Rightarrow>
                                     (case json_dumps (snd kv) of
                                        Inl e \<Rightarrow> Inl e
                                      | Inr s \<Rightarrow> Inr (json_string k @ '': '' @ s))) kvs) of
        Inl e \<Rightarrow> Inl e
      | Inr ss \<Rightarrow> Inr (''{'' @ join '', '' ss @ ''}''))"
| "json_dumps JObject = Inl TypeError"

text \<open>\<open>_format_signal_sse\<close>: a \<open>dict\<close> goes through \<open>json.dumps\<close>, anything else
  through \<open>str()\<close>.\<close>

fun format_signal_sse :: "DatastarEvent \<Rightarrow> item \<Rightarrow> exn + string" where
  "format_signal_sse self (Dict cfg entries) =
     (case json_dumps (JDict entries) of
        Inl e \<Rightarrow> Inl e
      | Inr s \<Rightarrow> Inr (''data: '' @ s))"
| "format_signal_sse self (Str s) = Inr (''data: '' @ s)"
| "format_signal_sse self (Obj s) = Inr (''data: '' @ s)"

section \<open>Blocks of one event\<close>

definition format_sse :: "DatastarEvent \<Rightarrow> item \<Rightarrow> exn + string" where
  "format_sse self x =
     (case (if event_type self = FRAGMENT then format_fragment_sse self x
            else format_signal_sse self x) of
        Inl e \<Rightarrow> Inl e
      | Inr data \<Rightarrow>
          Inr (''event: '' @ EventType_value (event_type self) @ ''\<newline>'' @ data
               @ ''\<newline>\<newline>''))"

text \<open>\<open>__aiter__\<close>, an asynchronous generator: the list of what each \<open>__anext__\<close> gives,
  a block or an exception. On a \<open>content\<close> that is no \<open>str\<close>, \<open>dict\<close> or \<open>list\<close>
  (which \<open>__post_init__\<close> rejects before) the \<open>for\<close> loop over it raises.\<close>

definition aiter :: "DatastarEvent \<Rightarrow> (exn + string) list" where
  "aiter self =
     (case content self of
        Item (Str s) \<Rightarrow> [format_sse self (Str s)]
      | Item (Dict cfg entries) \<Rightarrow> [format_sse self (Dict cfg entries)]
      | Item (Obj s) \<Rightarrow> [Inl TypeError]
      | Items xs \<Rightarrow> map (format_sse self) xs)"

definition stream :: "DatastarEvent \<Rightarrow> (exn + string) list" where
  "stream self = aiter self"

text \<open>What a consumer of a generator receives: the blocks up to the first exception,
  and that exception if there is one.\<close>

fun drain :: "(exn + 'a) list \<Rightarrow> 'a list \<times> exn option" where
  "drain [] = ([], None)"
| "drain (Inl e # rs) = ([], Some e)"
| "drain (Inr x # rs) = (case drain rs of (xs, r) \<Rightarrow> (x # xs, r))"

section \<open>The two streaming loops\<close>

text \<open>What a loop does that its caller or the event loop can observe.\<close>

datatype action = Yield string | Sleep real | Print exn

text \<open>\<open>DatastarStreamer\<close>. The callable \<open>condition_callable\<close> reads state of the
  surrounding service, so what it returns (or raises) is part of each tick's input.\<close>

record DatastarStreamer =
  interval :: real
  sleep_interval :: real

text \<open>The input of one loop iteration: the reading of the event loop's clock and the
  outcome of \<open>condition_callable()\<close> if it is called then. Clock readings and durations
  are real numbers: the floats of the source, taken as exact.\<close>

record tick =
  current_time :: real
  condition :: "exn + bool"

text \<open>The local variables of \<open>stream\<close>. \<open>generator\<close> is the list of outcomes that
  \<open>anext(generator)\<close> will give, a payload or an exception; when it is empty the
  generator is exhausted and \<open>anext\<close> raises \<open>StopAsyncIteration\<close>.\<close>

record loop_state =
  generator :: "(exn + content) list"
  last_yield_time :: real

text \<open>The two \<open>except\<close> clauses: \<open>StopAsyncIteration\<close> breaks the loop, any other
  \<open>Exception\<close> is printed. The result is the actions and whether the loop has ended.\<close>

definition except :: "exn \<Rightarrow> action list \<times> bool" where
  "except e = (if e = StopAsyncIteration then ([], True) else ([Print e], False))"

text \<open>One iteration of \<open>while True\<close>: the actions, the new state, whether the loop ended.\<close>

definition iteration ::
  "DatastarStreamer \<Rightarrow> loop_state \<Rightarrow> tick \<Rightarrow> action list \<times> loop_state \<times> bool" where
  "iteration self st t =
     (if current_time t - last_yield_time st \<ge> interval self then
        (case condition t of
           Inl e \<Rightarrow> (fst (except e), st, snd (except e))
         | Inr False \<Rightarrow> ([Sleep (sleep_interval self)], st, False)
         | Inr True \<Rightarrow>
             (case generator st of
                [] \<Rightarrow> (fst (except StopAsyncIteration), st, snd (except StopAsyncIteration))
              | Inl e # rest \<Rightarrow>
                  (fst (except e), st\<lparr>generator := rest\<rparr>, snd (except e))
              | Inr payload # rest \<Rightarrow>
                  (case DatastarEvent_init payload None None None None None None FRAGMENT of
                     Inl e \<Rightarrow> (fst (except e), st\<lparr>generator := rest\<rparr>, snd (except e))
                   | Inr event \<Rightarrow>
                       (case drain (stream event) of
                          (blocks, Some e) \<Rightarrow>
                            (map Yield blocks @ fst (except e), st\<lparr>generator := rest\<rparr>,
                             snd (except e))
                        | (blocks, None) \<Rightarrow>
                            (map Yield blocks @ [Sleep (sleep_interval self)],
                             st\<lparr>generator := rest, last_yield_time := current_time t\<rparr>,
                             False)))))
      else ([Sleep (sleep_interval self)], st, False))"

text \<open>The loop over the ticks given: the actions of each iteration run, the state
  reached, and whether the loop ended (\<open>break\<close>) within these ticks.\<close>

fun stream_loop ::
  "DatastarStreamer \<Rightarrow> loop_state \<Rightarrow> tick list \<Rightarrow> action list list \<times> loop_state \<times> bool" where
  "stream_loop self st [] = ([], st, False)"
| "stream_loop self st (t # ts) =
     (case iteration self st t of (acts, st', stopped) \<Rightarrow>
        if stopped then ([acts], st', True)
        else (case stream_loop self st' ts of (rest, st'', r) \<Rightarrow> (acts # rest, st'', r)))"

definition DatastarStreamer_stream ::
  "DatastarStreamer \<Rightarrow> (exn + content) list \<Rightarrow> tick list \<Rightarrow>
   action list list \<times> loop_state \<times> bool" where
  "DatastarStreamer_stream self fragment_generator ticks =
     stream_loop self \<lparr>generator = fragment_generator, last_yield_time = 0\<rparr> ticks"

text \<open>\<open>create_sse_stream\<close>: the \<open>async for\<close> over the data generator. The result is the
  actions and the exception that ended the stream, if one did.\<close>

fun create_sse_stream ::
  "(exn + content) list \<Rightarrow> MergeType option \<Rightarrow> string option \<Rightarrow> int option \<Rightarrow> bool option \<Rightarrow>
   EventType \<Rightarrow> real \<Rightarrow> action list \<times> exn option" where
  "create_sse_stream [] m sel sd vt k iv = ([], None)"
| "create_sse_stream (Inl e # rest) m sel sd vt k iv =
     (if e = StopAsyncIteration then ([], None) else ([], Some e))"
| "create_sse_stream (Inr data # rest) m sel sd vt k iv =
     (case DatastarEvent_init data m sel sd vt None None k of
        Inl e \<Rightarrow> ([], Some e)
      | Inr event \<Rightarrow>
          (case drain (stream event) of
             (blocks, Some e) \<Rightarrow> (map Yield blocks, Some e)
           | (blocks, None) \<Rightarrow>
               (case create_sse_stream rest m sel sd vt k iv of
                  (acts, r) \<Rightarrow> (map Yield blocks @ [Sleep iv] @ acts, r))))"

text \<open>The clock readings of the iterations that yielded at least one block, and the
  test that consecutive readings of a list are at least \<open>d\<close> apart.\<close>

fun is_Yield :: "action \<Rightarrow> bool" where
  "is_Yield (Yield b) = True"
| "is_Yield (Sleep d) = False"
| "is_Yield (Print e) = False"

definition emission_times :: "tick list \<Rightarrow> action list list \<Rightarrow> real list" where
  "emission_times ticks iters =
     map (\<lambda>ta. current_time (fst ta)) (filter (\<lambda>ta. list_ex is_Yield (snd ta)) (zip ticks iters))"

fun spaced :: "real \<Rightarrow> real list \<Rightarrow> bool" where
  "spaced d (a # b # ts) = (b - a \<ge> d \<and> spaced d (b # ts))"
| "spaced d ts = True"

section \<open>Lines of a block\<close>

text \<open>The lines of a text on the wire. The line feed ends a line (the blocks are
  line-terminated with \<open>\n\<close>); a last line may lack its line feed.\<close>

fun block_lines :: "string \<Rightarrow> string list" where
  "block_lines [] = []"
| "block_lines (c # cs) =
     (if c = CHR 0x0A then [] # block_lines cs
      else (case block_lines cs of [] \<Rightarrow> [[c]] | l # ls \<Rightarrow> (c # l) # ls))"

text \<open>The data lines of a block, those that begin with \<open>data: \<close>, and their keywords.\<close>

definition block_data_lines :: "string \<Rightarrow> string list" where
  "block_data_lines b = filter (prefix ''data: '') (block_lines b)"

definition data_fields :: "string \<Rightarrow> string list" where
  "data_fields b = map (\<lambda>l. keyword (drop 6 l)) (block_data_lines b)"

text \<open>A text without a line feed; the texts of an item that go into its block.\<close>

definition line_free :: "string \<Rightarrow> bool" where
  "line_free s = (CHR 0x0A \<notin> set s)"

definition line_free_opt :: "string option \<Rightarrow> bool" where
  "line_free_opt t = (case t of None \<Rightarrow> True | Some s \<Rightarrow> line_free s)"

fun line_free_item :: "item \<Rightarrow> bool" where
  "line_free_item (Str s) = line_free s"
| "line_free_item (Dict cfg entries) = (line_free_opt (selector cfg) \<and> line_free_opt (fragment cfg))"
| "line_free_item (Obj s) = line_free s"

definition content_items :: "content \<Rightarrow> item list" where
  "content_items c = (case c of Item x \<Rightarrow> [x] | Items xs \<Rightarrow> xs)"

definition line_free_content :: "content \<Rightarrow> bool" where
  "line_free_content c = list_all line_free_item (content_items c)"

section \<open>JSON texts\<close>













section \<open>Lemmas on the fragment encoder\<close>

lemma kept_simps:
  "kept [] = []"
  "kept (None # ls) = kept ls"
  "kept (Some l # ls) = l # kept ls"
  by (simp_all add: kept_def List.map_filter_simps)

lemma format_fragment_sse_resolve:
  "resolve self x = Inr (m, sel, frag) \<Longrightarrow>
     format_fragment_sse self x = Inr (render (kept (data_lines self m sel frag)))"
  by (simp add: format_fragment_sse_def)

lemma kept_data_lines:
  "kept (data_lines self m sel frag) =
     (case m of Some v \<Rightarrow> [''merge '' @ MergeType_value v] | None \<Rightarrow> []) @
     (case sel of Some s \<Rightarrow> if s \<noteq> [] then [''selector '' @ s] else [] | None \<Rightarrow> []) @
     (case settle_duration self of
        Some n \<Rightarrow> if n \<noteq> 0 then [''settle '' @ str_int n] else [] | None \<Rightarrow> []) @
     (case use_view_transitions self of
        Some b \<Rightarrow> [''vt '' @ (if b then ''true'' else ''false'')] | None \<Rightarrow> []) @
     (case redirect self of Some s \<Rightarrow> if s \<noteq> [] then [''redirect '' @ s] else [] | None \<Rightarrow> []) @
     (case error self of Some s \<Rightarrow> if s \<noteq> [] then [''error '' @ s] else [] | None \<Rightarrow> []) @
     [''fragment '' @ frag]"
  by (simp add: data_lines_def kept_simps lower_def lower_char_def str_bool_def
           split: option.split)

lemma keywords_merge:
  "map keyword (case m of Some v \<Rightarrow> [''merge '' @ f v] | None \<Rightarrow> []) =
     (if m \<noteq> None then [''merge''] else [])"
  by (cases m) (simp_all add: keyword_def)

lemma keywords_settle:
  "map keyword (case t of Some n \<Rightarrow> if n \<noteq> 0 then [''settle '' @ f n] else [] | None \<Rightarrow> []) =
     (if \<exists>n. t = Some n \<and> n \<noteq> (0::int) then [''settle''] else [])"
  by (cases t) (simp_all add: keyword_def)

lemma keywords_vt:
  "map keyword (case t of Some b \<Rightarrow> [''vt '' @ f b] | None \<Rightarrow> []) =
     (if t \<noteq> None then [''vt''] else [])"
  by (cases t) (simp_all add: keyword_def)

lemma keywords_data_lines:
  "map keyword (kept (data_lines self m sel frag)) =
     (if m \<noteq> None then [''merge''] else []) @
     (if \<exists>s. sel = Some s \<and> s \<noteq> [] then [''selector''] else []) @
     (if \<exists>n. settle_duration self = Some n \<and> n \<noteq> 0 then [''settle''] else []) @
     (if use_view_transitions self \<noteq> None then [''vt''] else []) @
     (if \<exists>s. redirect self = Some s \<and> s \<noteq> [] then [''redirect''] else []) @
     (if \<exists>s. error self = Some s \<and> s \<noteq> [] then [''error''] else []) @
     [''fragment'']"
proof -
  have sel: "map keyword (case t of Some s \<Rightarrow> if s \<noteq> [] then [''selector '' @ s] else [] | None \<Rightarrow> [])
      = (if \<exists>s. t = Some s \<and> s \<noteq> [] then [''selector''] else [])" for t
    by (cases t) (simp_all add: keyword_def)
  have red: "map keyword (case t of Some s \<Rightarrow> if s \<noteq> [] then [''redirect '' @ s] else [] | None \<Rightarrow> [])
      = (if \<exists>s. t = Some s \<and> s \<noteq> [] then [''redirect''] else [])" for t
    by (cases t) (simp_all add: keyword_def)
  have err: "map keyword (case t of Some s \<Rightarrow> if s \<noteq> [] then [''error '' @ s] else [] | None \<Rightarrow> [])
      = (if \<exists>s. t = Some s \<and> s \<noteq> [] then [''error''] else [])" for t
    by (cases t) (simp_all add: keyword_def)
  have frag: "keyword (''fragment '' @ frag) = ''fragment''"
    by (simp add: keyword_def)
  show ?thesis
    unfolding kept_data_lines map_append keywords_merge sel red err keywords_settle keywords_vt
    using frag by simp
qed


lemma subseq_kept:
  "list_all2 (\<lambda>d k. \<forall>l. d = Some l \<longrightarrow> keyword l = k) dl ks \<Longrightarrow> subseq (map keyword (kept dl)) ks"
proof (induction dl ks rule: list_all2_induct)
  case Nil
  then show ?case by (simp add: kept_simps)
next
  case (Cons d dl k ks)
  then show ?case by (cases d) (auto simp: kept_simps)
qed

lemma data_lines_keywords:
  "list_all2 (\<lambda>d k. \<forall>l. d = Some l \<longrightarrow> keyword l = k) (data_lines self m sel frag)
     [''merge'', ''selector'', ''settle'', ''vt'', ''redirect'', ''error'', ''fragment'']"
  by (simp add: data_lines_def keyword_def split: option.splits)

lemma kept_data_lines_last: "last (kept (data_lines self m sel frag)) = ''fragment '' @ frag"
  by (simp add: data_lines_def kept_simps split: option.splits)

lemma texts_data_lines:
  "(settle_duration self = Some n \<and> n \<noteq> 0 \<longrightarrow>
      ''settle '' @ str_int n \<in> set (kept (data_lines self m sel frag))) \<and>
   (use_view_transitions self = Some False \<longrightarrow>
      ''vt false'' \<in> set (kept (data_lines self m sel frag))) \<and>
   ''fragment '' @ frag \<in> set (kept (data_lines self m sel frag))"
  by (simp add: kept_data_lines)


section \<open>Lemmas on the lines of a block\<close>

lemma block_lines_line: "line_free l \<Longrightarrow> block_lines (l @ CHR 0x0A # rest) = l # block_lines rest"
  by (induction l) (auto simp: line_free_def)

lemma block_lines_last: "line_free l \<Longrightarrow> l \<noteq> [] \<Longrightarrow> block_lines l = [l]"
proof (induction l)
  case Nil
  then show ?case by simp
next
  case (Cons c l)
  then show ?case by (cases l) (auto simp: line_free_def)
qed

lemma block_lines_join:
  "\<forall>l \<in> set ls. line_free l \<and> l \<noteq> [] \<Longrightarrow> block_lines (join ''\<newline>'' ls) = ls"
proof (induction "''\<newline>''" ls rule: join.induct)
  case 1
  then show ?case by simp
next
  case (2 x)
  then show ?case by (simp add: block_lines_last)
next
  case (3 x y ys)
  then show ?case by (simp add: block_lines_line)
qed

lemma block_lines_render:
  assumes "\<forall>l \<in> set ls. line_free l"
  shows "block_lines (render ls) = map (\<lambda>l. ''data: '' @ l) ls"
  unfolding render_def
  using assms by (intro block_lines_join) (auto simp: line_free_def)

lemma data_fields_render:
  assumes "\<forall>l \<in> set ls. line_free l"
  shows "data_fields (render ls) = map keyword ls"
  by (simp add: data_fields_def block_data_lines_def block_lines_render [OF assms]
        filter_map comp_def)

lemma line_free_MergeType_value: "line_free (MergeType_value v)"
  by (cases v) (simp_all add: line_free_def)

lemma set_str_nat: "set (str_nat n) \<subseteq> set ''0123456789''"
proof (induction n rule: str_nat.induct)
  case (1 n)
  have d: "k < 10 \<Longrightarrow> ''0123456789'' ! k \<in> set ''0123456789''" for k :: nat
    by (rule nth_mem) simp
  show ?case
  proof (cases "n < 10")
    case True
    then show ?thesis using d [of n] by (subst str_nat.simps) simp
  next
    case False
    have "n mod 10 < 10" by simp
    with False 1 d [of "n mod 10"] show ?thesis
      by (subst str_nat.simps) simp
  qed
qed

lemma newline_str_int: "CHR 0x0A \<notin> set (str_int i)"
  using set_str_nat [of "nat i"] set_str_nat [of "nat (- i)"]
  by (auto simp: str_int_def)

lemma line_free_entries:
  assumes "line_free frag" and "line_free_opt sel"
    and "line_free_opt (redirect self)" and "line_free_opt (error self)"
  shows "\<forall>l \<in> set (kept (data_lines self m sel frag)). line_free l"
  unfolding kept_data_lines
  using assms line_free_MergeType_value newline_str_int
  by (auto simp: line_free_def line_free_opt_def split: option.splits if_splits)

lemma fragment_block_lines:
  assumes "format_fragment_sse self x = Inr block"
    and "resolve self x = Inr (m, sel, frag)"
    and "line_free frag" and "line_free_opt sel"
    and "line_free_opt (redirect self)" and "line_free_opt (error self)"
  shows "block_lines block = map (\<lambda>l. ''data: '' @ l) (kept (data_lines self m sel frag))"
    and "data_fields block = map keyword (kept (data_lines self m sel frag))"
    and "block_data_lines block = block_lines block"
proof -
  have b: "block = render (kept (data_lines self m sel frag))"
    using assms(1,2) by (simp add: format_fragment_sse_def)
  have lf: "\<forall>l \<in> set (kept (data_lines self m sel frag)). line_free l"
    using assms(3-6) by (rule line_free_entries)
  show 1: "block_lines block = map (\<lambda>l. ''data: '' @ l) (kept (data_lines self m sel frag))"
    unfolding b by (rule block_lines_render [OF lf])
  show "data_fields block = map keyword (kept (data_lines self m sel frag))"
    unfolding b by (rule data_fields_render [OF lf])
  show "block_data_lines block = block_lines block"
    unfolding block_data_lines_def 1 by (simp add: filter_map comp_def)
qed

section \<open>The order of the data lines\<close>

text \<open>Claim C1, as the code has it. For an item that encodes (a string, or a
  \<open>FragmentConfig\<close> with a \<open>fragment\<close> key) whose fragment text and effective selector,
  and an event whose redirect and error texts, hold no line feed: every line of the block is
  a data line, the keywords of the lines follow the order \<open>merge\<close>, \<open>selector\<close>,
  \<open>settle\<close>, \<open>vt\<close>, \<open>redirect\<close>, \<open>error\<close>, \<open>fragment\<close>, and the last line is the
  fragment line. The order stated in the claim, \<open>selector\<close> before \<open>merge\<close>, is not the
  order of the list in the function.\<close>

theorem fragment_line_order:
  assumes "format_fragment_sse self x = Inr block"
    and "resolve self x = Inr (m, sel, frag)"
    and "line_free frag" and "line_free_opt sel"
    and "line_free_opt (redirect self)" and "line_free_opt (error self)"
  shows "block_data_lines block = block_lines block \<and>
     subseq (data_fields block)
       [''merge'', ''selector'', ''settle'', ''vt'', ''redirect'', ''error'', ''fragment''] \<and>
     last (block_lines block) = ''data: fragment '' @ frag"
proof -
  note bl = fragment_block_lines [OF assms]
  have "subseq (data_fields block)
       [''merge'', ''selector'', ''settle'', ''vt'', ''redirect'', ''error'', ''fragment'']"
    unfolding bl(2) by (rule subseq_kept [OF data_lines_keywords])
  moreover have "last (block_lines block) = ''data: fragment '' @ frag"
    unfolding bl(1) kept_data_lines by simp
  ultimately show ?thesis using bl(3) by simp
qed

text \<open>An event with every default set: all seven lines, in the order of the theorem.\<close>

theorem fragment_line_order_witness:
  "format_fragment_sse
     \<lparr>merge = Some MORPH, selector = Some ''#a'', settle_duration = Some 250,
      use_view_transitions = Some False, redirect = Some ''/r'', error = Some ''e'',
      content = Item (Str ''x''), event_type = FRAGMENT\<rparr> (Str ''x'')
   = Inr ''data: merge morph_element\<newline>data: selector #a\<newline>data: settle 250\<newline>data: vt false\<newline>data: redirect /r\<newline>data: error e\<newline>data: fragment x'' \<and>
   resolve
     \<lparr>merge = Some MORPH, selector = Some ''#a'', settle_duration = Some 250,
      use_view_transitions = Some False, redirect = Some ''/r'', error = Some ''e'',
      content = Item (Str ''x''), event_type = FRAGMENT\<rparr> (Str ''x'')
   = Inr (Some MORPH, Some ''#a'', ''x'') \<and>
   line_free ''x'' \<and> line_free_opt (Some ''#a'') \<and> line_free_opt (Some ''/r'') \<and>
   line_free_opt (Some ''e'') \<and>
   subseq (data_fields ''data: merge morph_element\<newline>data: selector #a\<newline>data: settle 250\<newline>data: vt false\<newline>data: redirect /r\<newline>data: error e\<newline>data: fragment x'')
     [''merge'', ''selector'', ''settle'', ''vt'', ''redirect'', ''error'', ''fragment''] \<and>
   last (block_lines ''data: merge morph_element\<newline>data: selector #a\<newline>data: settle 250\<newline>data: vt false\<newline>data: redirect /r\<newline>data: error e\<newline>data: fragment x'')
     = ''data: fragment x''"
proof -
  let ?ev = "\<lparr>merge = Some MORPH, selector = Some ''#a'', settle_duration = Some 250,
      use_view_transitions = Some False, redirect = Some ''/r'', error = Some ''e'',
      content = Item (Str ''x''), event_type = FRAGMENT\<rparr>"
  let ?b = "''data: merge morph_element\<newline>data: selector #a\<newline>data: settle 250\<newline>data: vt false\<newline>data: redirect /r\<newline>data: error e\<newline>data: fragment x''"
  have enc: "format_fragment_sse ?ev (Str ''x'') = Inr ?b"
    by (simp add: format_fragment_sse_def kept_data_lines render_def str_int_def str_nat.simps)
  have res: "resolve ?ev (Str ''x'') = Inr (Some MORPH, Some ''#a'', ''x'')"
    by simp
  have lf: "line_free ''x''" "line_free_opt (Some ''#a'')" "line_free_opt (redirect ?ev)"
    "line_free_opt (error ?ev)"
    by (simp_all add: line_free_def line_free_opt_def)
  from fragment_line_order [OF enc res lf] enc res lf show ?thesis
    by simp
qed

text \<open>With a default merge and a default selector the merge line comes first, so the
  keywords of the block are not in the order \<open>selector\<close>, \<open>merge\<close>, ... of the claim.
  And the values are copied as they are: a line feed inside one of them starts a new line of
  the block, which the order of the function's list does not govern; here the lines read
  selector, error, settle, fragment, merge.\<close>

theorem fragment_line_order_counterexample:
  "format_fragment_sse
     \<lparr>merge = Some MORPH, selector = Some ''#a'', settle_duration = None,
      use_view_transitions = None, redirect = None, error = None,
      content = Item (Str ''x''), event_type = FRAGMENT\<rparr> (Str ''x'')
   = Inr ''data: merge morph_element\<newline>data: selector #a\<newline>data: fragment x'' \<and>
   \<not> subseq [''merge'', ''selector'', ''fragment'']
       [''selector'', ''merge'', ''settle'', ''vt'', ''redirect'', ''error'', ''fragment''] \<and>
   format_fragment_sse
     \<lparr>merge = None, selector = Some ''#a\<newline>data: error boom'', settle_duration = Some 5,
      use_view_transitions = None, redirect = None, error = None,
      content = Item (Str ''x''), event_type = FRAGMENT\<rparr> (Str ''x\<newline>data: merge morph_element'')
   = Inr ''data: selector #a\<newline>data: error boom\<newline>data: settle 5\<newline>data: fragment x\<newline>data: merge morph_element'' \<and>
   data_fields ''data: selector #a\<newline>data: error boom\<newline>data: settle 5\<newline>data: fragment x\<newline>data: merge morph_element''
   = [''selector'', ''error'', ''settle'', ''fragment'', ''merge'']"
  by (simp add: format_fragment_sse_def kept_data_lines render_def str_int_def str_nat.simps
        data_fields_def block_data_lines_def keyword_def)

section \<open>Which optional lines are present\<close>

text \<open>Claim C2, as the code has it. For an item that encodes, with \<open>m\<close> and \<open>sel\<close> its
  effective merge and selector, where the fragment text, the effective selector and the
  event's redirect and error texts hold no line feed, the lines of the block are such that:
  the merge line is present iff the effective merge is set; the selector, redirect and error
  lines are present iff the value is set and not the empty string; the settle line is absent
  when \<open>settle_duration\<close> is unset and present, with the decimal number, when it is a
  non-zero integer; the vt line is present iff \<open>use_view_transitions\<close> is not \<open>None\<close>,
  and \<open>False\<close> gives the line \<open>data: vt false\<close>; the fragment line is always present,
  also for the empty fragment text.\<close>

theorem optional_lines_present:
  assumes "format_fragment_sse self x = Inr block"
    and "resolve self x = Inr (m, sel, frag)"
    and "line_free frag" and "line_free_opt sel"
    and "line_free_opt (redirect self)" and "line_free_opt (error self)"
  shows "(''merge'' \<in> set (data_fields block) \<longleftrightarrow> m \<noteq> None) \<and>
    (''selector'' \<in> set (data_fields block) \<longleftrightarrow> (\<exists>s. sel = Some s \<and> s \<noteq> [])) \<and>
    (settle_duration self = None \<longrightarrow> ''settle'' \<notin> set (data_fields block)) \<and>
    (\<forall>n. settle_duration self = Some n \<and> n \<noteq> 0 \<longrightarrow>
       ''data: settle '' @ str_int n \<in> set (block_lines block)) \<and>
    (''vt'' \<in> set (data_fields block) \<longleftrightarrow> use_view_transitions self \<noteq> None) \<and>
    (use_view_transitions self = Some False \<longrightarrow> ''data: vt false'' \<in> set (block_lines block)) \<and>
    (''redirect'' \<in> set (data_fields block) \<longleftrightarrow> (\<exists>s. redirect self = Some s \<and> s \<noteq> [])) \<and>
    (''error'' \<in> set (data_fields block) \<longleftrightarrow> (\<exists>s. error self = Some s \<and> s \<noteq> [])) \<and>
    ''data: fragment '' @ frag \<in> set (block_lines block)"
proof -
  note bl = fragment_block_lines [OF assms]
  have kws: "data_fields block =
     (if m \<noteq> None then [''merge''] else []) @
     (if \<exists>s. sel = Some s \<and> s \<noteq> [] then [''selector''] else []) @
     (if \<exists>n. settle_duration self = Some n \<and> n \<noteq> 0 then [''settle''] else []) @
     (if use_view_transitions self \<noteq> None then [''vt''] else []) @
     (if \<exists>s. redirect self = Some s \<and> s \<noteq> [] then [''redirect''] else []) @
     (if \<exists>s. error self = Some s \<and> s \<noteq> [] then [''error''] else []) @
     [''fragment'']"
    unfolding bl(2) by (simp only: keywords_data_lines)
  have m: "''merge'' \<in> set (data_fields block) \<longleftrightarrow> m \<noteq> None"
    unfolding kws by simp
  have s: "''selector'' \<in> set (data_fields block) \<longleftrightarrow> (\<exists>s. sel = Some s \<and> s \<noteq> [])"
    unfolding kws by simp
  have st: "settle_duration self = None \<longrightarrow> ''settle'' \<notin> set (data_fields block)"
    unfolding kws by simp
  have v: "''vt'' \<in> set (data_fields block) \<longleftrightarrow> use_view_transitions self \<noteq> None"
    unfolding kws by simp
  have r: "''redirect'' \<in> set (data_fields block) \<longleftrightarrow> (\<exists>s. redirect self = Some s \<and> s \<noteq> [])"
    unfolding kws by simp
  have e: "''error'' \<in> set (data_fields block) \<longleftrightarrow> (\<exists>s. error self = Some s \<and> s \<noteq> [])"
    unfolding kws by simp
  have t1: "\<forall>n. settle_duration self = Some n \<and> n \<noteq> 0 \<longrightarrow>
       ''data: settle '' @ str_int n \<in> set (block_lines block)"
    unfolding bl(1) using texts_data_lines [of self _ m sel frag] by auto
  have t2: "use_view_transitions self = Some False \<longrightarrow> ''data: vt false'' \<in> set (block_lines block)"
    unfolding bl(1) using texts_data_lines [of self _ m sel frag] by auto
  have t3: "''data: fragment '' @ frag \<in> set (block_lines block)"
    unfolding bl(1) using texts_data_lines [of self _ m sel frag] by auto
  from m s st v r e t1 t2 t3 show ?thesis by blast
qed

text \<open>An item with an empty fragment text under an event with \<open>use_view_transitions=False\<close>:
  the lines \<open>data: vt false\<close> and \<open>data: fragment \<close> are both there.\<close>

theorem optional_lines_present_witness:
  "format_fragment_sse
     \<lparr>merge = None, selector = None, settle_duration = Some 5,
      use_view_transitions = Some False, redirect = None, error = Some ''oops'',
      content = Items [], event_type = FRAGMENT\<rparr>
     (Dict \<lparr>merge = Some INNER, selector = None, settle_duration = None,
      use_view_transitions = None, redirect = None, error = None, fragment = Some []\<rparr> [])
     = Inr ''data: merge inner_element\<newline>data: settle 5\<newline>data: vt false\<newline>data: error oops\<newline>data: fragment '' \<and>
   resolve
     \<lparr>merge = None, selector = None, settle_duration = Some 5,
      use_view_transitions = Some False, redirect = None, error = Some ''oops'',
      content = Items [], event_type = FRAGMENT\<rparr>
     (Dict \<lparr>merge = Some INNER, selector = None, settle_duration = None,
      use_view_transitions = None, redirect = None, error = None, fragment = Some []\<rparr> [])
     = Inr (Some INNER, None, []) \<and>
   line_free [] \<and> line_free_opt None \<and> line_free_opt (Some ''oops'') \<and>
   ''merge'' \<in> set (data_fields ''data: merge inner_element\<newline>data: settle 5\<newline>data: vt false\<newline>data: error oops\<newline>data: fragment '') \<and>
   ''selector'' \<notin> set (data_fields ''data: merge inner_element\<newline>data: settle 5\<newline>data: vt false\<newline>data: error oops\<newline>data: fragment '') \<and>
   ''data: vt false'' \<in> set (block_lines ''data: merge inner_element\<newline>data: settle 5\<newline>data: vt false\<newline>data: error oops\<newline>data: fragment '') \<and>
   ''data: fragment '' \<in> set (block_lines ''data: merge inner_element\<newline>data: settle 5\<newline>data: vt false\<newline>data: error oops\<newline>data: fragment '')"
proof -
  let ?ev = "\<lparr>merge = None, selector = None, settle_duration = Some 5,
      use_view_transitions = Some False, redirect = None, error = Some ''oops'',
      content = Items [], event_type = FRAGMENT\<rparr>"
  let ?x = "Dict \<lparr>merge = Some INNER, selector = None, settle_duration = None,
      use_view_transitions = None, redirect = None, error = None, fragment = Some []\<rparr> []"
  let ?b = "''data: merge inner_element\<newline>data: settle 5\<newline>data: vt false\<newline>data: error oops\<newline>data: fragment ''"
  have enc: "format_fragment_sse ?ev ?x = Inr ?b"
    by (simp add: format_fragment_sse_def or_merge_def or_str_def kept_data_lines render_def
          str_int_def str_nat.simps)
  have res: "resolve ?ev ?x = Inr (Some INNER, None, [])"
    by (simp add: or_merge_def or_str_def)
  have lf: "line_free []" "line_free_opt None" "line_free_opt (redirect ?ev)"
    "line_free_opt (error ?ev)"
    by (simp_all add: line_free_def line_free_opt_def)
  from optional_lines_present [OF enc res lf] enc res lf show ?thesis
    by simp
qed


text \<open>A selector that is set, to the empty string, has no line: the test is
  \<open>if selector\<close>, not \<open>if selector is not None\<close>. And a fragment text with a line feed
  followed by \<open>data: merge morph_element\<close> gives a block with a merge line although no
  merge is set.\<close>

theorem optional_lines_present_counterexample:
  "format_fragment_sse
     \<lparr>merge = None, selector = Some [], settle_duration = None,
      use_view_transitions = None, redirect = None, error = None,
      content = Items [], event_type = FRAGMENT\<rparr> (Str ''x'')
   = Inr ''data: fragment x'' \<and>
   format_fragment_sse
     \<lparr>merge = None, selector = None, settle_duration = None,
      use_view_transitions = None, redirect = None, error = None,
      content = Items [], event_type = FRAGMENT\<rparr> (Str ''x\<newline>data: merge morph_element'')
   = Inr ''data: fragment x\<newline>data: merge morph_element'' \<and>
   data_fields ''data: fragment x\<newline>data: merge morph_element'' = [''fragment'', ''merge'']"
  by (simp add: format_fragment_sse_def kept_data_lines render_def
        data_fields_def block_data_lines_def keyword_def)

section \<open>Item values and event defaults\<close>

text \<open>Claim C3, as the code has it. A \<open>FragmentConfig\<close> item with fragment text \<open>frag\<close>
  encodes as the plain string \<open>frag\<close> does under an event whose merge is the item's merge
  when that is set and the event's otherwise, and whose selector is the item's selector when
  that is set and not empty and the event's otherwise; so \<open>settle\<close>, \<open>vt\<close>, \<open>redirect\<close>
  and \<open>error\<close> are the event's. The item's own \<open>settle_duration\<close>,
  \<open>use_view_transitions\<close>, \<open>redirect\<close> and \<open>error\<close> (and its other entries) change
  nothing.\<close>

theorem effective_fields:
  assumes "fragment cfg = Some frag"
  shows "format_fragment_sse self (Dict cfg entries) =
         format_fragment_sse
           (self\<lparr>merge := (case merge cfg of Some m \<Rightarrow> Some m | None \<Rightarrow> merge self),
                 selector := (case selector cfg of
                                Some s \<Rightarrow> if s \<noteq> [] then Some s else selector self
                              | None \<Rightarrow> selector self)\<rparr>) (Str frag) \<and>
         format_fragment_sse self
           (Dict (cfg\<lparr>settle_duration := a, use_view_transitions := b, redirect := c,
                      error := d\<rparr>) entries') =
         format_fragment_sse self (Dict cfg entries)"
  using assms
  by (simp add: format_fragment_sse_def data_lines_def or_merge_def or_str_def)

text \<open>The item's merge wins over the event's, the event's selector fills in, and the item's
  four other values leave no trace.\<close>

theorem effective_fields_witness:
  "fragment \<lparr>merge = Some INNER, selector = None, settle_duration = Some 9,
      use_view_transitions = Some True, redirect = Some ''/x'', error = Some ''e'',
      fragment = Some ''hi''\<rparr> = Some ''hi'' \<and>
   format_fragment_sse
     \<lparr>merge = Some MORPH, selector = Some ''#a'', settle_duration = None,
      use_view_transitions = None, redirect = None, error = None,
      content = Items [], event_type = FRAGMENT\<rparr>
     (Dict \<lparr>merge = Some INNER, selector = None, settle_duration = Some 9,
      use_view_transitions = Some True, redirect = Some ''/x'', error = Some ''e'',
      fragment = Some ''hi''\<rparr> [])
   = Inr ''data: merge inner_element\<newline>data: selector #a\<newline>data: fragment hi''"
  using effective_fields [where cfg =
     "\<lparr>merge = Some INNER, selector = None, settle_duration = Some 9,
      use_view_transitions = Some True, redirect = Some ''/x'', error = Some ''e'',
      fragment = Some ''hi''\<rparr>" and frag = "''hi''" and self =
     "\<lparr>merge = Some MORPH, selector = Some ''#a'', settle_duration = None,
      use_view_transitions = None, redirect = None, error = None,
      content = Items [], event_type = FRAGMENT\<rparr>" and entries = "[]"]
  by (simp add: format_fragment_sse_def kept_data_lines render_def)

text \<open>An item whose selector is present but empty does not win: the event's selector is
  used (\<open>fragment.get('selector') or self.selector\<close>).\<close>

theorem effective_fields_counterexample:
  "format_fragment_sse
     \<lparr>merge = None, selector = Some ''#a'', settle_duration = None,
      use_view_transitions = None, redirect = None, error = None,
      content = Items [], event_type = FRAGMENT\<rparr>
     (Dict \<lparr>merge = None, selector = Some [], settle_duration = None,
      use_view_transitions = None, redirect = None, error = None, fragment = Some ''x''\<rparr> [])
   = Inr ''data: selector #a\<newline>data: fragment x''"
  by (simp add: format_fragment_sse_def kept_data_lines render_def or_merge_def or_str_def)



section \<open>Validation errors\<close>

lemma drain_fst: "fst (drain rs) = map projr (takeWhile (\<lambda>r. \<not> isl r) rs)"
proof (induction rs)
  case Nil
  then show ?case by simp
next
  case (Cons r rs)
  then show ?case by (cases r) (auto split: prod.splits)
qed

lemma drain_snd:
  "snd (drain rs) = (case dropWhile (\<lambda>r. \<not> isl r) rs of [] \<Rightarrow> None | r # _ \<Rightarrow> Some (projl r))"
proof (induction rs)
  case Nil
  then show ?case by simp
next
  case (Cons r rs)
  then show ?case by (cases r) (auto split: prod.splits)
qed

lemma missing_fragment:
  "event_type self = FRAGMENT \<Longrightarrow> fragment cfg = None \<Longrightarrow>
     format_sse self (Dict cfg entries) = Inl KeyError"
  by (simp add: format_sse_def format_fragment_sse_def)

lemma fragment_error_is_KeyError:
  "event_type self = FRAGMENT \<Longrightarrow> format_sse self x = Inl e \<Longrightarrow> e = KeyError"
  by (cases x) (auto simp: format_sse_def format_fragment_sse_def split: option.splits)

lemma drain_snd_KeyError:
  assumes "event_type self = FRAGMENT" and "x \<in> set xs" and "isl (format_sse self x)"
  shows "snd (drain (map (format_sse self) xs)) = Some KeyError"
proof -
  from assms(2,3) have "dropWhile (\<lambda>r. \<not> isl r) (map (format_sse self) xs) \<noteq> []"
    by (auto simp: dropWhile_eq_Nil_conv)
  then obtain r rs where d: "dropWhile (\<lambda>r. \<not> isl r) (map (format_sse self) xs) = r # rs"
    by (cases "dropWhile (\<lambda>r. \<not> isl r) (map (format_sse self) xs)") auto
  then have "isl r" using hd_dropWhile [of "\<lambda>r. \<not> isl r" "map (format_sse self) xs"] by auto
  moreover have "r \<in> set (map (format_sse self) xs)"
    using d set_dropWhileD [of r "\<lambda>r. \<not> isl r" "map (format_sse self) xs"] by simp
  ultimately obtain y e where "r = format_sse self y" "format_sse self y = Inl e"
    by (cases r) auto
  with assms(1) have "r = Inl KeyError" using fragment_error_is_KeyError by metis
  with d show ?thesis by (simp add: drain_snd)
qed

text \<open>Claim C4, as the code has it. Constructing a \<open>DatastarEvent\<close> whose content is
  not a list, a string or a mapping fails the assertion of \<open>__post_init__\<close>, whatever the
  kind. For a fragment event a mapping without a \<open>fragment\<close> key raises \<open>KeyError\<close> when it
  is encoded: as the content itself the stream gives no block and that error; as an item of a
  list the stream gives the blocks of the items before the first such mapping, none for the
  mapping, and ends with that error.\<close>

theorem validation_errors:
  "DatastarEvent_init (Item (Obj s)) m sel sd vt r e k = Inl AssertionError \<and>
   (event_type self = FRAGMENT \<and> fragment cfg = None \<longrightarrow>
      format_sse self (Dict cfg entries) = Inl KeyError \<and>
      (content self = Item (Dict cfg entries) \<longrightarrow> drain (stream self) = ([], Some KeyError)) \<and>
      (\<forall>xs. content self = Items xs \<and> Dict cfg entries \<in> set xs \<longrightarrow>
         snd (drain (stream self)) = Some KeyError \<and>
         fst (drain (stream self))
           = map (\<lambda>x. projr (format_sse self x))
               (takeWhile (\<lambda>x. \<not> isl (format_sse self x)) xs) \<and>
         Dict cfg entries \<notin> set (takeWhile (\<lambda>x. \<not> isl (format_sse self x)) xs)))"
proof -
  have a: "DatastarEvent_init (Item (Obj s)) m sel sd vt r e k = Inl AssertionError"
    by (simp add: DatastarEvent_init_def post_init_def)
  have b: "format_sse self (Dict cfg entries) = Inl KeyError"
    if "event_type self = FRAGMENT" "fragment cfg = None"
    using that by (rule missing_fragment)
  have c: "drain (stream self) = ([], Some KeyError)"
    if "event_type self = FRAGMENT" "fragment cfg = None" "content self = Item (Dict cfg entries)"
    using that b by (simp add: stream_def aiter_def)
  have d: "snd (drain (stream self)) = Some KeyError \<and>
         fst (drain (stream self))
           = map (\<lambda>x. projr (format_sse self x))
               (takeWhile (\<lambda>x. \<not> isl (format_sse self x)) xs) \<and>
         Dict cfg entries \<notin> set (takeWhile (\<lambda>x. \<not> isl (format_sse self x)) xs)"
    if h: "event_type self = FRAGMENT" "fragment cfg = None" "content self = Items xs"
      "Dict cfg entries \<in> set xs" for xs
  proof -
    have bad: "isl (format_sse self (Dict cfg entries))"
      using b [OF h(1,2)] by simp
    have 1: "snd (drain (stream self)) = Some KeyError"
      using drain_snd_KeyError [OF h(1) h(4) bad] h(3) by (simp add: stream_def aiter_def)
    have 2: "fst (drain (stream self))
           = map (\<lambda>x. projr (format_sse self x))
               (takeWhile (\<lambda>x. \<not> isl (format_sse self x)) xs)"
      using h(3) by (simp add: stream_def aiter_def drain_fst takeWhile_map comp_def)
    have 3: "Dict cfg entries \<notin> set (takeWhile (\<lambda>x. \<not> isl (format_sse self x)) xs)"
      using bad set_takeWhileD [of "Dict cfg entries" "\<lambda>x. \<not> isl (format_sse self x)" xs]
      by blast
    from 1 2 3 show ?thesis by simp
  qed
  from a b c d show ?thesis by blast
qed

text \<open>A list whose second item has no \<open>fragment\<close> key: the first block, then
  \<open>KeyError\<close>; the third item is never encoded.\<close>

theorem validation_errors_witness:
  "drain (stream \<lparr>merge = None, selector = None, settle_duration = None,
      use_view_transitions = None, redirect = None, error = None,
      content = Items [Str ''a'',
        Dict \<lparr>merge = None, selector = Some ''#x'', settle_duration = None,
          use_view_transitions = None, redirect = None, error = None, fragment = None\<rparr> [],
        Str ''b''],
      event_type = FRAGMENT\<rparr>)
   = ([''event: datastar-fragment\<newline>data: fragment a\<newline>\<newline>''], Some KeyError)"
proof -
  let ?cfg = "\<lparr>merge = None, selector = Some ''#x'', settle_duration = None,
          use_view_transitions = None, redirect = None, error = None, fragment = None\<rparr>"
  let ?ev = "\<lparr>merge = None, selector = None, settle_duration = None,
      use_view_transitions = None, redirect = None, error = None,
      content = Items [Str ''a'', Dict ?cfg [], Str ''b''], event_type = FRAGMENT\<rparr>"
  have f: "format_sse ?ev (Str ''a'') = Inr ''event: datastar-fragment\<newline>data: fragment a\<newline>\<newline>''"
    by (simp add: format_sse_def format_fragment_sse_def data_lines_def kept_simps render_def)
  have "snd (drain (stream ?ev)) = Some KeyError \<and>
        fst (drain (stream ?ev)) = map (\<lambda>x. projr (format_sse ?ev x))
               (takeWhile (\<lambda>x. \<not> isl (format_sse ?ev x)) [Str ''a'', Dict ?cfg [], Str ''b''])"
    using validation_errors [where self = ?ev and cfg = ?cfg and entries = "[]"]
    by simp
  moreover have "format_sse ?ev (Dict ?cfg []) = Inl KeyError"
    using validation_errors [where self = ?ev and cfg = ?cfg and entries = "[]"] by simp
  ultimately show ?thesis
    using f by (simp add: prod_eq_iff)
qed

text \<open>A list is neither a string nor a mapping, yet a signal event accepts it: the
  assertion passes and each item is encoded as a signal block.\<close>

theorem validation_errors_counterexample:
  "DatastarEvent_init (Items [Str ''a'']) None None None None None None SIGNAL
     = Inr \<lparr>merge = None, selector = None, settle_duration = None,
        use_view_transitions = None, redirect = None, error = None,
        content = Items [Str ''a''], event_type = SIGNAL\<rparr> \<and>
   drain (stream \<lparr>merge = None, selector = None, settle_duration = None,
        use_view_transitions = None, redirect = None, error = None,
        content = Items [Str ''a''], event_type = SIGNAL\<rparr>)
     = ([''event: datastar-signal\<newline>data: a\<newline>\<newline>''], None)"
  by (simp add: DatastarEvent_init_def post_init_def stream_def aiter_def format_sse_def)


section \<open>Signal events\<close>





























section \<open>The gated loop: exhaustion and failures\<close>

text \<open>The exceptions that building and encoding an event can raise; none of them is
  \<open>StopAsyncIteration\<close>, so the loop prints them.\<close>

lemma json_key_error: "json_key k = Inl e \<Longrightarrow> e = TypeError"
  by (cases k) simp_all

lemma json_dumps_error: "json_dumps v = Inl e \<Longrightarrow> e = TypeError"
proof (induction v)
  case (JList xs)
  have "sequence (map json_dumps ys) = Inl e \<Longrightarrow> set ys \<subseteq> set xs \<Longrightarrow> e = TypeError" for ys
  proof (induction ys)
    case Nil
    then show ?case by simp
  next
    case (Cons y ys)
    then show ?case using JList.IH [of y]
      by (cases "json_dumps y") (auto split: sum.splits)
  qed
  with JList.prems show ?case by (auto split: sum.splits)
next
  case (JDict kvs)
  let ?f = "\<lambda>kv. case json_key (fst kv) of Inl e \<Rightarrow> Inl e
                  | Inr k \<Rightarrow> (case json_dumps (snd kv) of Inl e \<Rightarrow> Inl e
                     | Inr s \<Rightarrow> Inr (json_string k @ '': '' @ s))"
  have "sequence (map ?f ys) = Inl e \<Longrightarrow> set ys \<subseteq> set kvs \<Longrightarrow> e = TypeError" for ys
  proof (induction ys)
    case Nil
    then show ?case by simp
  next
    case (Cons y ys)
    have "snd y \<in> Basic_BNFs.snds y" by (cases y) simp
    with Cons show ?case using JDict.IH [of y "snd y"] json_key_error [of "fst y"]
      by (cases "json_key (fst y)"; cases "json_dumps (snd y)") (auto split: sum.splits)
  qed
  with JDict.prems show ?case by (auto split: sum.splits)
qed (auto split: if_splits)

lemma format_signal_sse_error: "format_signal_sse self x = Inl e \<Longrightarrow> e = TypeError"
proof (cases x)
  case (Dict cfg entries)
  assume "format_signal_sse self x = Inl e"
  with Dict have "json_dumps (JDict entries) = Inl e"
    by (simp del: json_dumps.simps split: sum.splits)
  then show ?thesis by (rule json_dumps_error)
qed simp_all

lemma format_fragment_sse_error: "format_fragment_sse self x = Inl e \<Longrightarrow> e = KeyError"
  by (cases x) (auto simp: format_fragment_sse_def split: option.splits)

lemma format_sse_error: "format_sse self x = Inl e \<Longrightarrow> e = KeyError \<or> e = TypeError"
  by (auto simp: format_sse_def dest: format_signal_sse_error format_fragment_sse_error
           split: if_splits sum.splits)

lemma drain_error: "drain rs = (bs, Some e) \<Longrightarrow> Inl e \<in> set rs"
proof (induction rs arbitrary: bs)
  case Nil
  then show ?case by simp
next
  case (Cons r rs)
  then show ?case by (cases r) (auto split: prod.splits)
qed

lemma stream_error: "drain (stream ev) = (bs, Some e) \<Longrightarrow> e = KeyError \<or> e = TypeError"
  by (drule drain_error)
     (auto simp: stream_def aiter_def dest: format_sse_error [OF sym]
           split: content.splits item.splits)

lemma init_error:
  "DatastarEvent_init p m sel sd vt r x k = Inl e \<Longrightarrow> e = AssertionError"
  by (auto simp: DatastarEvent_init_def post_init_def split: content.splits item.splits)

lemma stream_loop_continue:
  "iteration self st t = (acts, st', False) \<Longrightarrow>
     stream_loop self st (t # ts) =
       (case stream_loop self st' ts of (iters, st'', r) \<Rightarrow> (acts # iters, st'', r))"
  by simp

lemmas eval_simps =
  iteration_def except_def DatastarEvent_init_def post_init_def stream_def aiter_def
  format_sse_def format_fragment_sse_def data_lines_def kept_simps render_def
  DatastarStreamer_stream_def or_merge_def or_str_def

text \<open>Claim C6. In an iteration whose interval has elapsed and whose gate is true:
  \<^item> an exhausted source ends the loop: nothing is printed, the later ticks are not run;
  \<^item> a source that raises another exception has it printed, and the loop goes on with
    the next tick;
  \<^item> a payload that fails at construction or while its blocks are encoded has the
    exception printed (after the blocks already yielded), and the loop goes on;
  \<^item> when the source raises once and then gives a payload, the next iteration whose
    interval has elapsed and whose gate is true yields the blocks of that payload.
  Exceptions are the subclasses of \<open>Exception\<close>, which is what the \<open>except\<close> clause
  catches.\<close>

theorem stream_exhaustion_and_failures:
  assumes "current_time t - last_yield_time st \<ge> interval self"
    and "condition t = Inr True"
  shows "(generator st = [] \<longrightarrow> stream_loop self st (t # ts) = ([[]], st, True)) \<and>
    (generator st = Inl e # rest \<and> e \<noteq> StopAsyncIteration \<longrightarrow>
       iteration self st t = ([Print e], st\<lparr>generator := rest\<rparr>, False) \<and>
       stream_loop self st (t # ts) =
         (case stream_loop self (st\<lparr>generator := rest\<rparr>) ts of
            (iters, st', r) \<Rightarrow> ([Print e] # iters, st', r))) \<and>
    (generator st = Inr p # rest \<and>
       DatastarEvent_init p None None None None None None FRAGMENT = Inl e \<longrightarrow>
       iteration self st t = ([Print e], st\<lparr>generator := rest\<rparr>, False)) \<and>
    (generator st = Inr p # rest \<and>
       DatastarEvent_init p None None None None None None FRAGMENT = Inr ev \<and>
       drain (stream ev) = (blocks, Some e) \<longrightarrow>
       iteration self st t = (map Yield blocks @ [Print e], st\<lparr>generator := rest\<rparr>, False)) \<and>
    (generator st = Inl e # Inr p # rest \<and> e \<noteq> StopAsyncIteration \<and>
       DatastarEvent_init p None None None None None None FRAGMENT = Inr ev \<and>
       drain (stream ev) = (blocks, None) \<and>
       current_time t' - last_yield_time st \<ge> interval self \<and> condition t' = Inr True \<longrightarrow>
       stream_loop self st (t # t' # ts') =
         (case stream_loop self (st\<lparr>generator := rest, last_yield_time := current_time t'\<rparr>) ts' of
            (iters, st', r) \<Rightarrow>
              ([Print e] # (map Yield blocks @ [Sleep (sleep_interval self)]) # iters, st', r)))"
proof -
  have a: "stream_loop self st (t # ts) = ([[]], st, True)" if "generator st = []"
    using assms that by (simp add: iteration_def except_def)
  have b: "iteration self st t = ([Print e], st\<lparr>generator := rest\<rparr>, False)"
    if "generator st = Inl e # rest" "e \<noteq> StopAsyncIteration" for e rest
    using assms that by (simp add: iteration_def except_def)
  have b': "stream_loop self st (t # ts) =
         (case stream_loop self (st\<lparr>generator := rest\<rparr>) ts of
            (iters, st', r) \<Rightarrow> ([Print e] # iters, st', r))"
    if "generator st = Inl e # rest" "e \<noteq> StopAsyncIteration"
    by (rule stream_loop_continue [OF b [OF that]])
  have c: "iteration self st t = ([Print e], st\<lparr>generator := rest\<rparr>, False)"
    if "generator st = Inr p # rest"
      "DatastarEvent_init p None None None None None None FRAGMENT = Inl e"
    using assms that init_error [OF that(2)] by (simp add: iteration_def except_def)
  have d: "iteration self st t = (map Yield blocks @ [Print e], st\<lparr>generator := rest\<rparr>, False)"
    if "generator st = Inr p # rest"
      "DatastarEvent_init p None None None None None None FRAGMENT = Inr ev"
      "drain (stream ev) = (blocks, Some e)"
    using assms that stream_error [OF that(3)] by (auto simp: iteration_def except_def)
  have e: "stream_loop self st (t # t' # ts') =
         (case stream_loop self (st\<lparr>generator := rest, last_yield_time := current_time t'\<rparr>) ts' of
            (iters, st', r) \<Rightarrow>
              ([Print e] # (map Yield blocks @ [Sleep (sleep_interval self)]) # iters, st', r))"
    if h: "generator st = Inl e # Inr p # rest" "e \<noteq> StopAsyncIteration"
      "DatastarEvent_init p None None None None None None FRAGMENT = Inr ev"
      "drain (stream ev) = (blocks, None)"
      "current_time t' - last_yield_time st \<ge> interval self" "condition t' = Inr True"
  proof -
    have 1: "iteration self st t = ([Print e], st\<lparr>generator := Inr p # rest\<rparr>, False)"
      using b [OF h(1,2)] .
    have 2: "iteration self (st\<lparr>generator := Inr p # rest\<rparr>) t' =
        (map Yield blocks @ [Sleep (sleep_interval self)],
         st\<lparr>generator := rest, last_yield_time := current_time t'\<rparr>, False)"
      using h(3-6) by (simp add: iteration_def)
    show ?thesis
      by (simp only: stream_loop_continue [OF 1] stream_loop_continue [OF 2])
         (simp split: prod.splits)
  qed
  from a b b' c d e show ?thesis by blast
qed

text \<open>A source that raises once and then gives the payload \<open>a\<close>: the failure is
  printed in the first iteration and the block is yielded in the second.\<close>

theorem stream_exhaustion_and_failures_witness:
  "current_time \<lparr>current_time = 5, condition = Inr True\<rparr>
     - last_yield_time \<lparr>generator = [Inl (Failure ''boom''), Inr (Item (Str ''a''))],
                        last_yield_time = 0\<rparr>
     \<ge> interval \<lparr>interval = 1, sleep_interval = 1 / 10\<rparr> \<and>
   stream_loop \<lparr>interval = 1, sleep_interval = 1 / 10\<rparr>
     \<lparr>generator = [Inl (Failure ''boom''), Inr (Item (Str ''a''))], last_yield_time = 0\<rparr>
     [\<lparr>current_time = 5, condition = Inr True\<rparr>, \<lparr>current_time = 5, condition = Inr True\<rparr>]
   = ([[Print (Failure ''boom'')],
       [Yield ''event: datastar-fragment\<newline>data: fragment a\<newline>\<newline>'', Sleep (1 / 10)]],
      \<lparr>generator = [], last_yield_time = 5\<rparr>, False)"
  using stream_exhaustion_and_failures [where
      self = "\<lparr>interval = 1, sleep_interval = 1 / 10\<rparr>" and
      st = "\<lparr>generator = [Inl (Failure ''boom''), Inr (Item (Str ''a''))], last_yield_time = 0\<rparr>" and
      t = "\<lparr>current_time = 5, condition = Inr True\<rparr>" and
      t' = "\<lparr>current_time = 5, condition = Inr True\<rparr>" and ts' = "[]" and
      e = "Failure ''boom''" and p = "Item (Str ''a'')" and rest = "[]" and
      ev = "\<lparr>merge = None, selector = None, settle_duration = None,
        use_view_transitions = None, redirect = None, error = None,
        content = Item (Str ''a''), event_type = FRAGMENT\<rparr>" and
      blocks = "[''event: datastar-fragment\<newline>data: fragment a\<newline>\<newline>'']"]
  by (simp add: DatastarEvent_init_def post_init_def stream_def aiter_def
        format_sse_def format_fragment_sse_def data_lines_def kept_simps render_def)


section \<open>The gated loop: spacing of emissions\<close>

text \<open>A block is yielded only in an iteration where the time since the last recorded
  emission is at least the interval and the gate returned true.\<close>

lemma except_no_yield: "Yield b \<notin> set (fst (except e))"
  by (simp add: except_def)

lemma iteration_yield_guard:
  "Yield b \<in> set (fst (iteration self st t)) \<Longrightarrow>
     current_time t - last_yield_time st \<ge> interval self \<and> condition t = Inr True"
  by (auto simp: iteration_def except_no_yield split: if_splits sum.splits bool.splits)

text \<open>Claim C7 at a failing input. The first payload is a list whose second item has no
  \<open>fragment\<close> key: its first block is yielded, then \<open>KeyError\<close> is raised and caught, and
  \<open>last_yield_time\<close> is not set. The next iteration, a millisecond later, yields the next
  payload: two emissions less than the interval (one second) apart, against the claim that
  no two consecutive emissions are less than the interval apart.\<close>

theorem partial_emission_not_spaced:
  "DatastarStreamer_stream \<lparr>interval = 1, sleep_interval = 1 / 10\<rparr>
     [Inr (Items [Str ''a'', Dict \<lparr>merge = None, selector = Some ''#a'', settle_duration = None,
        use_view_transitions = None, redirect = None, error = None, fragment = None\<rparr> []]),
      Inr (Item (Str ''b''))]
     [\<lparr>current_time = 5, condition = Inr True\<rparr>,
      \<lparr>current_time = 5 + 1 / 1000, condition = Inr True\<rparr>]
   = ([[Yield ''event: datastar-fragment\<newline>data: fragment a\<newline>\<newline>'', Print KeyError],
       [Yield ''event: datastar-fragment\<newline>data: fragment b\<newline>\<newline>'', Sleep (1 / 10)]],
      \<lparr>generator = [], last_yield_time = 5 + 1 / 1000\<rparr>, False) \<and>
   emission_times
     [\<lparr>current_time = 5, condition = Inr True\<rparr>,
      \<lparr>current_time = 5 + 1 / 1000, condition = Inr True\<rparr>]
     [[Yield ''event: datastar-fragment\<newline>data: fragment a\<newline>\<newline>'', Print KeyError],
      [Yield ''event: datastar-fragment\<newline>data: fragment b\<newline>\<newline>'', Sleep (1 / 10)]]
   = [5, 5 + 1 / 1000] \<and>
   \<not> spaced 1 [5, 5 + 1 / 1000]"
  by (simp add: eval_simps emission_times_def)


section \<open>The gated loop: the sleep of each iteration\<close>

text \<open>An iteration that neither ends the loop nor prints an exception sleeps.\<close>

lemma iteration_sleeps_unless_raised:
  assumes "iteration self st t = (acts, st', stopped)"
  shows "Sleep (sleep_interval self) \<in> set acts \<or> stopped \<or> (\<exists>e. Print e \<in> set acts)"
  using assms
  by (auto simp: iteration_def except_def
           split: if_splits sum.splits bool.splits list.splits prod.splits option.splits)

text \<open>Claim C8 at a failing input. The first payload is a mapping without a \<open>fragment\<close>
  key: \<open>KeyError\<close> is raised inside the \<open>try\<close> block, before \<open>asyncio.sleep\<close>, and the
  handler only prints it. The first iteration has no sleep, against the claim that every
  iteration sleeps, the one with a caught failure included; the second iteration runs at
  once.\<close>

theorem failure_path_skips_sleep:
  "DatastarStreamer_stream \<lparr>interval = 1, sleep_interval = 1 / 10\<rparr>
     [Inr (Item (Dict \<lparr>merge = None, selector = Some ''#a'', settle_duration = None,
        use_view_transitions = None, redirect = None, error = None, fragment = None\<rparr> [])),
      Inr (Item (Str ''a''))]
     [\<lparr>current_time = 5, condition = Inr True\<rparr>, \<lparr>current_time = 5, condition = Inr True\<rparr>]
   = ([[Print KeyError],
       [Yield ''event: datastar-fragment\<newline>data: fragment a\<newline>\<newline>'', Sleep (1 / 10)]],
      \<lparr>generator = [], last_yield_time = 5\<rparr>, False)"
  by (simp add: eval_simps)


section \<open>The unconditional pump\<close>

lemma create_sse_stream_step:
  assumes "DatastarEvent_init p m sel sd vt None None k = Inr ev"
    and "drain (stream ev) = (bs, None)"
  shows "create_sse_stream (Inr p # rest) m sel sd vt k iv =
     (map Yield bs @ [Sleep iv] @ fst (create_sse_stream rest m sel sd vt k iv),
      snd (create_sse_stream rest m sel sd vt k iv))"
  using assms by (simp split: prod.splits)

lemma filter_is_Yield: "filter is_Yield (map Yield bs) = map Yield bs"
  by (induction bs) simp_all

lemma create_sse_stream_prefix:
  assumes "\<forall>p \<in> set ps. \<exists>ev. DatastarEvent_init p m sel sd vt None None k = Inr ev \<and>
             drain (stream ev) = (blocks p, None)"
  shows "create_sse_stream (map Inr ps @ rest) m sel sd vt k iv
           = (concat (map (\<lambda>p. map Yield (blocks p) @ [Sleep iv]) ps)
                @ fst (create_sse_stream rest m sel sd vt k iv),
              snd (create_sse_stream rest m sel sd vt k iv))"
  using assms
proof (induction ps)
  case Nil
  then show ?case by simp
next
  case (Cons p ps)
  from Cons.prems obtain ev where ev: "DatastarEvent_init p m sel sd vt None None k = Inr ev"
    "drain (stream ev) = (blocks p, None)"
    by auto
  from Cons.prems have "\<forall>p \<in> set ps. \<exists>ev. DatastarEvent_init p m sel sd vt None None k = Inr ev \<and>
             drain (stream ev) = (blocks p, None)"
    by simp
  note IH = Cons.IH [OF this]
  have "create_sse_stream (map Inr (p # ps) @ rest) m sel sd vt k iv =
     (map Yield (blocks p) @ [Sleep iv] @ fst (create_sse_stream (map Inr ps @ rest) m sel sd vt k iv),
      snd (create_sse_stream (map Inr ps @ rest) m sel sd vt k iv))"
    using create_sse_stream_step [OF ev] by simp
  then show ?case unfolding IH by simp
qed

text \<open>Claim C9, as the code has it. For a source that gives the payloads \<open>ps\<close> and is then
  exhausted, where each payload makes an event that encodes to the blocks \<open>blocks p\<close>
  without raising: \<open>create_sse_stream\<close> yields, payload by payload, the blocks of its event
  in order and then sleeps for the interval; the stream ends with no exception, and the
  blocks yielded are the concatenation of the blocks of the events. When a payload \<open>bad\<close>
  that raises follows such payloads, the stream ends with its exception after the blocks
  already yielded, and no later payload is encoded.\<close>

theorem create_sse_stream_output:
  assumes "\<forall>p \<in> set ps. \<exists>ev. DatastarEvent_init p m sel sd vt None None k = Inr ev \<and>
             drain (stream ev) = (blocks p, None)"
  shows "create_sse_stream (map Inr ps) m sel sd vt k iv
           = (concat (map (\<lambda>p. map Yield (blocks p) @ [Sleep iv]) ps), None) \<and>
         filter is_Yield (fst (create_sse_stream (map Inr ps) m sel sd vt k iv))
           = map Yield (concat (map blocks ps)) \<and>
         (DatastarEvent_init bad m sel sd vt None None k = Inl e \<longrightarrow>
            create_sse_stream (map Inr ps @ Inr bad # rest) m sel sd vt k iv
              = (concat (map (\<lambda>p. map Yield (blocks p) @ [Sleep iv]) ps), Some e)) \<and>
         (DatastarEvent_init bad m sel sd vt None None k = Inr ev \<and>
          drain (stream ev) = (bs, Some e) \<longrightarrow>
            create_sse_stream (map Inr ps @ Inr bad # rest) m sel sd vt k iv
              = (concat (map (\<lambda>p. map Yield (blocks p) @ [Sleep iv]) ps) @ map Yield bs, Some e))"
proof -
  note pre = create_sse_stream_prefix [OF assms]
  have 1: "create_sse_stream (map Inr ps) m sel sd vt k iv
           = (concat (map (\<lambda>p. map Yield (blocks p) @ [Sleep iv]) ps), None)"
    using pre [of "[]" iv] by simp
  have "filter is_Yield (concat (map (\<lambda>p. map Yield (blocks p) @ [Sleep iv]) ps))
           = map Yield (concat (map blocks ps))"
    by (induction ps) (simp_all add: filter_is_Yield)
  with 1 have 2: "filter is_Yield (fst (create_sse_stream (map Inr ps) m sel sd vt k iv))
           = map Yield (concat (map blocks ps))"
    by simp
  have 3: "create_sse_stream (map Inr ps @ Inr bad # rest) m sel sd vt k iv
              = (concat (map (\<lambda>p. map Yield (blocks p) @ [Sleep iv]) ps), Some e)"
    if "DatastarEvent_init bad m sel sd vt None None k = Inl e"
    unfolding pre using that by simp
  have 4: "create_sse_stream (map Inr ps @ Inr bad # rest) m sel sd vt k iv
              = (concat (map (\<lambda>p. map Yield (blocks p) @ [Sleep iv]) ps) @ map Yield bs, Some e)"
    if "DatastarEvent_init bad m sel sd vt None None k = Inr ev" "drain (stream ev) = (bs, Some e)"
    unfolding pre using that by simp
  from 1 2 3 4 show ?thesis by blast
qed

text \<open>Two payloads, a string and a list of two strings, with a default merge; then the
  same followed by the integer 5, which fails the assertion of the constructor.\<close>

theorem create_sse_stream_output_witness:
  "(\<exists>ev. DatastarEvent_init (Item (Str ''a'')) (Some INNER) None None None None None FRAGMENT
          = Inr ev \<and>
        drain (stream ev) =
          ([''event: datastar-fragment\<newline>data: merge inner_element\<newline>data: fragment a\<newline>\<newline>''],
           None)) \<and>
   (\<exists>ev. DatastarEvent_init (Items [Str ''b'', Str ''c'']) (Some INNER) None None None None None
            FRAGMENT = Inr ev \<and>
        drain (stream ev) =
          ([''event: datastar-fragment\<newline>data: merge inner_element\<newline>data: fragment b\<newline>\<newline>'',
            ''event: datastar-fragment\<newline>data: merge inner_element\<newline>data: fragment c\<newline>\<newline>''],
           None)) \<and>
   create_sse_stream [Inr (Item (Str ''a'')), Inr (Items [Str ''b'', Str ''c''])]
     (Some INNER) None None None FRAGMENT (1 / 10)
   = ([Yield ''event: datastar-fragment\<newline>data: merge inner_element\<newline>data: fragment a\<newline>\<newline>'',
       Sleep (1 / 10),
       Yield ''event: datastar-fragment\<newline>data: merge inner_element\<newline>data: fragment b\<newline>\<newline>'',
       Yield ''event: datastar-fragment\<newline>data: merge inner_element\<newline>data: fragment c\<newline>\<newline>'',
       Sleep (1 / 10)], None) \<and>
   DatastarEvent_init (Item (Obj ''5'')) (Some INNER) None None None None None FRAGMENT
     = Inl AssertionError \<and>
   create_sse_stream [Inr (Item (Str ''a'')), Inr (Items [Str ''b'', Str ''c'']),
                      Inr (Item (Obj ''5'')), Inr (Item (Str ''d''))]
     (Some INNER) None None None FRAGMENT (1 / 10)
   = ([Yield ''event: datastar-fragment\<newline>data: merge inner_element\<newline>data: fragment a\<newline>\<newline>'',
       Sleep (1 / 10),
       Yield ''event: datastar-fragment\<newline>data: merge inner_element\<newline>data: fragment b\<newline>\<newline>'',
       Yield ''event: datastar-fragment\<newline>data: merge inner_element\<newline>data: fragment c\<newline>\<newline>'',
       Sleep (1 / 10)], Some AssertionError)"
proof -
  let ?blocks = "\<lambda>p. if p = Item (Str ''a'')
            then [''event: datastar-fragment\<newline>data: merge inner_element\<newline>data: fragment a\<newline>\<newline>'']
            else [''event: datastar-fragment\<newline>data: merge inner_element\<newline>data: fragment b\<newline>\<newline>'',
                  ''event: datastar-fragment\<newline>data: merge inner_element\<newline>data: fragment c\<newline>\<newline>'']"
  have h: "\<forall>p \<in> set [Item (Str ''a''), Items [Str ''b'', Str ''c'']].
      \<exists>ev. DatastarEvent_init p (Some INNER) None None None None None FRAGMENT = Inr ev \<and>
        drain (stream ev) = (?blocks p, None)"
    by (simp add: DatastarEvent_init_def post_init_def stream_def aiter_def
          format_sse_def format_fragment_sse_def data_lines_def kept_simps render_def)
  have b: "DatastarEvent_init (Item (Obj ''5'')) (Some INNER) None None None None None FRAGMENT
     = Inl AssertionError"
    by (simp add: DatastarEvent_init_def post_init_def)
  from create_sse_stream_output [OF h, where iv = "1 / 10" and bad = "Item (Obj ''5'')"
      and e = AssertionError and rest = "[Inr (Item (Str ''d''))]"] h b
  show ?thesis by simp
qed

text \<open>A source of three payloads, the second the integer 5: the stream ends with
  \<open>AssertionError\<close> after the block of the first, and the third is never encoded.\<close>

theorem create_sse_stream_output_counterexample:
  "create_sse_stream [Inr (Item (Str ''a'')), Inr (Item (Obj ''5'')), Inr (Item (Str ''b''))]
     None None None None FRAGMENT (1 / 10)
   = ([Yield ''event: datastar-fragment\<newline>data: fragment a\<newline>\<newline>'', Sleep (1 / 10)],
      Some AssertionError)"
  by (simp add: DatastarEvent_init_def post_init_def stream_def aiter_def
        format_sse_def format_fragment_sse_def data_lines_def kept_simps render_def)


section \<open>Blocks of the gated loop\<close>

lemma block_lines_join_then:
  "ls \<noteq> [] \<Longrightarrow> \<forall>l \<in> set ls. line_free l \<Longrightarrow>
     block_lines (join ''\<newline>'' ls @ CHR 0x0A # rest) = ls @ block_lines rest"
proof (induction "''\<newline>''" ls rule: join.induct)
  case 1
  then show ?case by simp
next
  case (2 x)
  then show ?case by (simp add: block_lines_line)
next
  case (3 x y ys)
  then show ?case by (simp add: block_lines_line)
qed

lemma fragment_event_block_lines:
  assumes "ls \<noteq> []" and "\<forall>l \<in> set ls. line_free l"
    and "b = ''event: datastar-fragment\<newline>'' @ render ls @ ''\<newline>\<newline>''"
  shows "block_lines b = ''event: datastar-fragment'' # map (\<lambda>l. ''data: '' @ l) ls @ [[]]"
proof -
  have 1: "line_free ''event: datastar-fragment''" by (simp add: line_free_def)
  have 2: "map (\<lambda>l. ''data: '' @ l) ls \<noteq> []"
    "\<forall>l \<in> set (map (\<lambda>l. ''data: '' @ l) ls). line_free l"
    using assms(1,2) by (auto simp: line_free_def)
  have "block_lines (''event: datastar-fragment'' @ CHR 0x0A #
          (join ''\<newline>'' (map (\<lambda>l. ''data: '' @ l) ls) @ CHR 0x0A # [CHR 0x0A]))
        = ''event: datastar-fragment'' # map (\<lambda>l. ''data: '' @ l) ls @ [[]]"
    unfolding block_lines_line [OF 1] block_lines_join_then [OF 2] by simp
  then show ?thesis by (simp add: assms(3) render_def)
qed

lemma fragment_block_prefix:
  assumes "event_type ev = FRAGMENT" and "format_sse ev x = Inr b"
  shows "prefix ''event: datastar-fragment\<newline>'' b"
  using assms by (auto simp: format_sse_def prefix_def split: sum.splits)

lemma fragment_block_of_plain_event:
  assumes "merge ev = None" and "selector ev = None"
    and "settle_duration ev = None" and "use_view_transitions ev = None"
    and "redirect ev = None" and "error ev = None" and "event_type ev = FRAGMENT"
    and "line_free_item x" and "format_sse ev x = Inr b"
  shows "prefix ''event: datastar-fragment\<newline>'' b \<and>
     set (data_fields b) \<subseteq> {''merge'', ''selector'', ''fragment''} \<and>
     block_lines b = ''event: datastar-fragment'' # block_data_lines b @ [[]]"
proof -
  from assms(7,9) obtain data where data: "format_fragment_sse ev x = Inr data"
    and b: "b = ''event: datastar-fragment\<newline>'' @ data @ ''\<newline>\<newline>''"
    by (auto simp: format_sse_def split: sum.splits)
  from data obtain m sel frag where res: "resolve ev x = Inr (m, sel, frag)"
    and d: "data = render (kept (data_lines ev m sel frag))"
    by (auto simp: format_fragment_sse_def split: sum.splits)
  let ?ls = "kept (data_lines ev m sel frag)"
  from res assms(2,8) have "line_free frag \<and> line_free_opt sel"
    by (cases x) (auto simp: or_str_def line_free_opt_def split: option.splits if_splits)
  then have lf: "\<forall>l \<in> set ?ls. line_free l"
    using assms(5,6) by (intro line_free_entries) (simp_all add: line_free_opt_def)
  have ne: "?ls \<noteq> []" unfolding kept_data_lines by simp
  have bl: "block_lines b = ''event: datastar-fragment'' # map (\<lambda>l. ''data: '' @ l) ?ls @ [[]]"
    using ne lf by (rule fragment_event_block_lines) (simp add: b d)
  have dl: "block_data_lines b = map (\<lambda>l. ''data: '' @ l) ?ls"
    unfolding block_data_lines_def bl by (simp add: filter_map comp_def)
  have df: "data_fields b = map keyword ?ls"
    unfolding data_fields_def dl by (simp add: comp_def)
  have "set (data_fields b) \<subseteq> {''merge'', ''selector'', ''fragment''}"
    unfolding df keywords_data_lines using assms(3-6) by auto
  moreover have "prefix ''event: datastar-fragment\<newline>'' b"
    unfolding b by (simp add: prefix_def)
  ultimately show ?thesis using bl dl by simp
qed

lemma drain_mem: "b \<in> set (fst (drain rs)) \<Longrightarrow> Inr b \<in> set rs"
proof (induction rs arbitrary: b)
  case Nil
  then show ?case by simp
next
  case (Cons r rs)
  then show ?case by (cases r) (auto split: prod.splits)
qed

lemma stream_mem:
  "Inr b \<in> set (stream ev) \<Longrightarrow> \<exists>x \<in> set (content_items (content ev)). format_sse ev x = Inr b"
  by (auto simp: stream_def aiter_def content_items_def split: content.splits item.splits)

lemma init_plain:
  "DatastarEvent_init p None None None None None None FRAGMENT = Inr ev \<Longrightarrow>
     merge ev = None \<and> selector ev = None \<and>
     settle_duration ev = None \<and> use_view_transitions ev = None \<and> redirect ev = None \<and>
     error ev = None \<and> event_type ev = FRAGMENT \<and> content ev = p"
  by (auto simp: DatastarEvent_init_def post_init_def split: content.splits item.splits)

lemma iteration_yield:
  assumes "Yield b \<in> set (fst (iteration self st t))"
  shows "\<exists>p ev x. Inr p \<in> set (generator st) \<and>
     DatastarEvent_init p None None None None None None FRAGMENT = Inr ev \<and>
     x \<in> set (content_items p) \<and> format_sse ev x = Inr b"
proof -
  from assms obtain p rest ev blocks r where g: "generator st = Inr p # rest"
    and ev: "DatastarEvent_init p None None None None None None FRAGMENT = Inr ev"
    and d: "drain (stream ev) = (blocks, r)" and b: "b \<in> set blocks"
    by (auto simp: iteration_def except_no_yield
             split: if_splits sum.splits bool.splits list.splits prod.splits option.splits)
  from d b have "Inr b \<in> set (stream ev)" using drain_mem [of b "stream ev"] by simp
  then obtain x where "x \<in> set (content_items (content ev))" "format_sse ev x = Inr b"
    using stream_mem by blast
  with g ev init_plain [OF ev] show ?thesis by auto
qed

lemma iteration_generator:
  "iteration self st t = (acts, st', stopped) \<Longrightarrow> set (generator st') \<subseteq> set (generator st)"
  by (auto simp: iteration_def
           split: if_splits sum.splits bool.splits list.splits prod.splits option.splits)

lemma stream_loop_yield:
  "Yield b \<in> set (concat (fst (stream_loop self st ticks))) \<Longrightarrow>
     \<exists>st' t. set (generator st') \<subseteq> set (generator st) \<and>
       Yield b \<in> set (fst (iteration self st' t))"
proof (induction ticks arbitrary: st)
  case Nil
  then show ?case by simp
next
  case (Cons t ticks)
  obtain acts st' stopped where it: "iteration self st t = (acts, st', stopped)"
    by (cases "iteration self st t") auto
  show ?case
  proof (cases "Yield b \<in> set acts")
    case True
    with it have "Yield b \<in> set (fst (iteration self st t))" by simp
    then show ?thesis by blast
  next
    case False
    with Cons.prems it have "Yield b \<in> set (concat (fst (stream_loop self st' ticks)))"
      by (auto split: if_splits prod.splits)
    from Cons.IH [OF this] obtain st'' t' where
      "set (generator st'') \<subseteq> set (generator st')"
      "Yield b \<in> set (fst (iteration self st'' t'))"
      by blast
    with iteration_generator [OF it] show ?thesis by blast
  qed
qed

text \<open>Claim C10, as the code has it. Every block that \<open>DatastarStreamer.stream\<close> yields,
  whatever the ticks, starts with the line \<open>event: datastar-fragment\<close>. When the selector
  and fragment texts of the payloads hold no line feed, its lines are that event line, then
  data lines whose keywords are among \<open>merge\<close>, \<open>selector\<close> and \<open>fragment\<close> (none is
  a \<open>settle\<close>, \<open>vt\<close>, \<open>redirect\<close> or \<open>error\<close> line, whatever the payload sets for
  these fields), then the blank line.\<close>

theorem streamer_blocks:
  assumes "Yield b \<in> set (concat (fst (DatastarStreamer_stream self fragment_generator ticks)))"
  shows "prefix ''event: datastar-fragment\<newline>'' b \<and>
     ((\<forall>p. Inr p \<in> set fragment_generator \<longrightarrow> line_free_content p) \<longrightarrow>
        set (data_fields b) \<subseteq> {''merge'', ''selector'', ''fragment''} \<and>
        block_lines b = ''event: datastar-fragment'' # block_data_lines b @ [[]])"
proof -
  from assms obtain st' t where
    g: "set (generator st') \<subseteq> set fragment_generator"
    and y: "Yield b \<in> set (fst (iteration self st' t))"
    unfolding DatastarStreamer_stream_def using stream_loop_yield by fastforce
  from iteration_yield [OF y] obtain p ev x where p: "Inr p \<in> set (generator st')"
    and ev: "DatastarEvent_init p None None None None None None FRAGMENT = Inr ev"
    and x: "x \<in> set (content_items p)" "format_sse ev x = Inr b"
    by blast
  have 1: "prefix ''event: datastar-fragment\<newline>'' b"
    using init_plain [OF ev] x(2) fragment_block_prefix [of ev x b] by simp
  have 2: "set (data_fields b) \<subseteq> {''merge'', ''selector'', ''fragment''} \<and>
        block_lines b = ''event: datastar-fragment'' # block_data_lines b @ [[]]"
    if lf: "\<forall>p. Inr p \<in> set fragment_generator \<longrightarrow> line_free_content p"
  proof -
    from p g lf have "line_free_content p" by blast
    with x(1) have "line_free_item x" by (simp add: line_free_content_def list_all_iff)
    with init_plain [OF ev] x(2) show ?thesis
      using fragment_block_of_plain_event [of ev x b] by blast
  qed
  from 1 2 show ?thesis by blast
qed

text \<open>A payload that sets all of its own fields: only its merge, selector and fragment
  reach the block.\<close>

theorem streamer_blocks_witness:
  "line_free_content (Item (Dict \<lparr>merge = Some PREPEND, selector = Some ''#feeds'',
            settle_duration = Some 5, use_view_transitions = Some False,
            redirect = Some ''/x'', error = Some ''e'', fragment = Some ''<div>1</div>''\<rparr> [])) \<and>
   Yield ''event: datastar-fragment\<newline>data: merge prepend_element\<newline>data: selector #feeds\<newline>data: fragment <div>1</div>\<newline>\<newline>''
     \<in> set (concat (fst (DatastarStreamer_stream \<lparr>interval = 1 / 10, sleep_interval = 1 / 10\<rparr>
         [Inr (Item (Dict \<lparr>merge = Some PREPEND, selector = Some ''#feeds'',
            settle_duration = Some 5, use_view_transitions = Some False,
            redirect = Some ''/x'', error = Some ''e'', fragment = Some ''<div>1</div>''\<rparr> []))]
         [\<lparr>current_time = 7, condition = Inr True\<rparr>]))) \<and>
   data_fields ''event: datastar-fragment\<newline>data: merge prepend_element\<newline>data: selector #feeds\<newline>data: fragment <div>1</div>\<newline>\<newline>''
     = [''merge'', ''selector'', ''fragment''] \<and>
   block_lines ''event: datastar-fragment\<newline>data: merge prepend_element\<newline>data: selector #feeds\<newline>data: fragment <div>1</div>\<newline>\<newline>''
     = ''event: datastar-fragment'' #
       block_data_lines ''event: datastar-fragment\<newline>data: merge prepend_element\<newline>data: selector #feeds\<newline>data: fragment <div>1</div>\<newline>\<newline>''
       @ [[]]"
proof -
  let ?p = "Item (Dict \<lparr>merge = Some PREPEND, selector = Some ''#feeds'',
            settle_duration = Some 5, use_view_transitions = Some False,
            redirect = Some ''/x'', error = Some ''e'', fragment = Some ''<div>1</div>''\<rparr> [])"
  let ?b = "''event: datastar-fragment\<newline>data: merge prepend_element\<newline>data: selector #feeds\<newline>data: fragment <div>1</div>\<newline>\<newline>''"
  have lf: "line_free_content ?p"
    by (simp add: line_free_content_def content_items_def line_free_opt_def line_free_def)
  then have g: "\<forall>p. Inr p \<in> set [Inr ?p] \<longrightarrow> line_free_content p" by simp
  have h: "Yield ?b
     \<in> set (concat (fst (DatastarStreamer_stream \<lparr>interval = 1 / 10, sleep_interval = 1 / 10\<rparr>
         [Inr ?p] [\<lparr>current_time = 7, condition = Inr True\<rparr>])))"
    by (simp add: iteration_def except_def DatastarEvent_init_def post_init_def stream_def
          aiter_def format_sse_def format_fragment_sse_def data_lines_def kept_simps render_def
          DatastarStreamer_stream_def or_merge_def or_str_def)
  have f: "data_fields ?b = [''merge'', ''selector'', ''fragment'']"
    by (simp add: data_fields_def block_data_lines_def keyword_def)
  from streamer_blocks [OF h] g lf h f show ?thesis by simp
qed

text \<open>The text of a payload is copied as it is: a payload whose text holds a line feed
  followed by \<open>data: settle 5\<close> gives a block with a settle line.\<close>

theorem streamer_blocks_counterexample:
  "DatastarStreamer_stream \<lparr>interval = 1, sleep_interval = 1 / 10\<rparr>
     [Inr (Item (Str ''x\<newline>data: settle 5''))]
     [\<lparr>current_time = 5, condition = Inr True\<rparr>]
   = ([[Yield ''event: datastar-fragment\<newline>data: fragment x\<newline>data: settle 5\<newline>\<newline>'',
        Sleep (1 / 10)]],
      \<lparr>generator = [], last_yield_time = 5\<rparr>, False) \<and>
   block_data_lines ''event: datastar-fragment\<newline>data: fragment x\<newline>data: settle 5\<newline>\<newline>''
   = [''data: fragment x'', ''data: settle 5''] \<and>
   data_fields ''event: datastar-fragment\<newline>data: fragment x\<newline>data: settle 5\<newline>\<newline>''
   = [''fragment'', ''settle'']"
  by (simp add: iteration_def except_def DatastarEvent_init_def post_init_def stream_def
        aiter_def format_sse_def format_fragment_sse_def data_lines_def kept_simps render_def
        DatastarStreamer_stream_def data_fields_def block_data_lines_def keyword_def)


end
